theory Spec2Isabelle
  imports Main "HOL-Library.AList"
begin

section \<open>Data model of \<^verbatim>\<open>autoscaler/container_service.py\<close>\<close>

text \<open>
  Every \<^verbatim>\<open>raise\<close> of the modelled code, and every exception the Python runtime raises
  in it (a missing dictionary key, an index out of range, an unbound global name, a negative
  argument of \<^verbatim>\<open>time.sleep\<close>), is a value of \<open>error\<close>.
  \<open>InvalidScaleDown p\<close> is the \<^verbatim>\<open>Exception("Tried to scale down pool p to less than 1 agent")\<close>
  of \<^verbatim>\<open>scale_down\<close>.
\<close>

datatype error =
    KeyError string
  | IndexError
  | NameError string
  | ValueError
  | InvalidScaleDown string

text \<open>
  A Python \<^verbatim>\<open>dict\<close> with string keys is an association list in insertion order:
  \<^verbatim>\<open>d[k]\<close> is \<open>map_of d k\<close> (\<open>None\<close> is the \<^verbatim>\<open>KeyError\<close>), and
  \<^verbatim>\<open>d[k] = v\<close> is \<open>AList.update k v d\<close>, which overwrites an existing key where it
  stands and appends a new one.
\<close>

type_synonym 'v dict = "(string \<times> 'v) list"

text \<open>
  \<^verbatim>\<open>AgentPool\<close> (module \<^verbatim>\<open>autoscaler.agent_pool\<close>) is imported by the source; the code
  reads its attributes \<^verbatim>\<open>name\<close>, \<^verbatim>\<open>actual_capacity\<close> and \<^verbatim>\<open>max_size\<close>.
  Python's integers are unbounded, hence \<open>int\<close>.
\<close>

record agent_pool =
  name :: string
  actual_capacity :: int
  max_size :: int

text \<open>A node is known to this module by its \<^verbatim>\<open>name\<close> attribute.\<close>

record kube_node =
  node_name :: string

text \<open>
  The managed container service object (\<^verbatim>\<open>self.instance\<close>, the field \<open>instance_obj\<close>
  below, since \<open>instance\<close> is a keyword): the \<^verbatim>\<open>count\<close> of each entry of
  \<^verbatim>\<open>agent_pool_profiles\<close>, and the service principal profile (\<open>None\<close> is Python's
  \<^verbatim>\<open>None\<close>).
\<close>

record acs_instance =
  agent_pool_profiles :: "int list"
  service_principal_profile :: "string option"

text \<open>
  An entry of the ARM template's \<^verbatim>\<open>resources\<close> list: its \<^verbatim>\<open>type\<close>, its
  \<^verbatim>\<open>dependsOn\<close> list (\<open>None\<close> when the key is absent) and the rest of the entry,
  uninterpreted.
\<close>

record resource =
  rtype :: string
  dependsOn :: "string list option"
  body :: string

record template =
  resources :: "resource list"

text \<open>
  A value of the ARM parameter dictionary: \<open>Value n\<close> is the \<^verbatim>\<open>{'value': n}\<close> the code
  writes; \<open>Raw s\<close> stands for any other entry loaded from the parameters file.
\<close>

datatype param = Value int | Raw string

record container_service =
  resource_group_name :: string
  container_service_name :: string
  is_acs_engine :: bool
  agent_pools :: "agent_pool list"
  arm_parameters :: "param dict"
  arm_template :: template
  instance_obj :: acs_instance
  desired_agent_pool_capacity :: "int option"

subsection \<open>Observable effects\<close>

text \<open>The \<^verbatim>\<open>logger\<close> calls of the modelled code, with the values they format.\<close>

datatype log =
    ScalingDown string int
  | AlreadyAt string int
  | DryRunWould string int int
  | DeletingNode string
  | DeletingVM
  | DeletingNIC
  | DeletingOSDisk
  | Backoff int

text \<open>
  Every call that leaves the module, in the order it is made:
  \<^item> \<open>Reclaim p n\<close>: \<^verbatim>\<open>pool.reclaim_unschedulable_nodes(n)\<close> on the pool named \<open>p\<close>;
  \<^item> \<open>Deploy s\<close>: \<^verbatim>\<open>self.deployments.deploy(operation, s)\<close>;
  \<^item> \<open>AcsCreateOrUpdate g c i\<close>: \<^verbatim>\<open>acs_client.create_or_update(g, c, i)\<close>;
  \<^item> \<open>ArmCreateOrUpdate g t p\<close>: \<^verbatim>\<open>deployments.create_or_update(g, "autoscaler-deployment", properties)\<close>
    with template \<open>t\<close> and parameters \<open>p\<close>;
  \<^item> \<open>VmGet g n\<close>: \<^verbatim>\<open>virtual_machines.get(g, n, None)\<close>;
  \<^item> \<open>ResourceDelete g ns ty n\<close>: \<^verbatim>\<open>resources.delete(g, ns, '', ty, n, '2016-03-30')\<close>;
  \<^item> \<open>Wait\<close>: the \<^verbatim>\<open>wait()\<close> on the operation just started;
  \<^item> \<open>ListKeys g a\<close>: \<^verbatim>\<open>storage_accounts.list_keys(g, a)\<close>;
  \<^item> \<open>DeleteBlob a k c b\<close>: \<^verbatim>\<open>BlockBlobService(a, k).delete_blob(c, b)\<close>;
  \<^item> \<open>Sleep d\<close>: \<^verbatim>\<open>time.sleep(d)\<close>;
  \<^item> \<open>Info l\<close>: a log line.
\<close>

datatype event =
    Reclaim string int
  | Deploy "int dict"
  | AcsCreateOrUpdate string string acs_instance
  | ArmCreateOrUpdate string template "param dict"
  | VmGet string string
  | ResourceDelete string string string string
  | Wait
  | ListKeys string string
  | DeleteBlob string string string string
  | Sleep int
  | Info log

text \<open>The calls that change something outside the process: everything but reads, waits, sleeps and logs.\<close>

fun mutating :: "event \<Rightarrow> bool" where
  "mutating (Reclaim p n) = True"
| "mutating (Deploy s) = True"
| "mutating (AcsCreateOrUpdate g c i) = True"
| "mutating (ArmCreateOrUpdate g t p) = True"
| "mutating (ResourceDelete g ns ty n) = True"
| "mutating (DeleteBlob a k c b) = True"
| "mutating (VmGet g n) = False"
| "mutating Wait = False"
| "mutating (ListKeys g a) = False"
| "mutating (Sleep d) = False"
| "mutating (Info l) = False"

text \<open>
  A method of \<^verbatim>\<open>ContainerService\<close> returns the object as the call left it (Python mutates
  it in place, also when the call raises), the events in order, and the exception raised, if any.
\<close>

type_synonym outcome = "container_service \<times> event list \<times> error option"

text \<open>
  Modelled from the spec: \<^verbatim>\<open>Deployments.deploy\<close> (the class of \<^verbatim>\<open>self.deployments\<close> is not
  in this module). Section 4.2: \<^verbatim>\<open>deploy(operation, poolSizesSnapshot)\<close> wraps a single
  mutating call, is always invoked with a snapshot of intended pool sizes, returns the
  provider's result or error unchanged and does not retry; section 5: every provider call is
  synchronous. So the call is recorded with its snapshot and the operation runs once, at once.
\<close>

definition deploy :: "(container_service \<Rightarrow> outcome) \<Rightarrow> int dict \<Rightarrow> container_service \<Rightarrow> outcome" where
  "deploy operation snapshot cs =
     (case operation cs of (cs', evs, err) \<Rightarrow> (cs', Deploy snapshot # evs, err))"

section \<open>Pool partitioning\<close>

text \<open>
  \<^verbatim>\<open>pools.setdefault(pool_name, []).append(node)\<close> on a dictionary of node lists.
\<close>

fun setdefault_append :: "string \<Rightarrow> 'a \<Rightarrow> 'a list dict \<Rightarrow> 'a list dict" where
  "setdefault_append k x [] = [(k, [x])]"
| "setdefault_append k x ((k', xs) # d) =
     (if k' = k then (k', xs @ [x]) # d else (k', xs) # setdefault_append k x d)"

text \<open>
  \<^verbatim>\<open>get_agent_pools\<close>. \<^verbatim>\<open>utils.get_pool_name\<close> is not in this module and is the parameter
  \<open>get_pool_name\<close>. Modelled from the spec: the constructor \<^verbatim>\<open>AgentPool(pool_name, nodes)\<close>
  (section 3: \<^verbatim>\<open>actual_capacity\<close> is the count of member nodes, \<^verbatim>\<open>max_size\<close> a hard
  ceiling, here the parameter \<open>ceiling\<close>).
\<close>

definition AgentPool :: "int \<Rightarrow> string \<Rightarrow> kube_node list \<Rightarrow> agent_pool" where
  "AgentPool ceiling pool_name nodes =
     \<lparr>name = pool_name, actual_capacity = int (length nodes), max_size = ceiling\<rparr>"

definition get_agent_pools :: "(kube_node \<Rightarrow> string) \<Rightarrow> int \<Rightarrow> kube_node list \<Rightarrow> agent_pool list" where
  "get_agent_pools get_pool_name ceiling nodes =
     (let pools = fold (\<lambda>node pools. setdefault_append (get_pool_name node) node pools) nodes []
      in map (\<lambda>(pool_name, members). AgentPool ceiling pool_name members) pools)"

section \<open>Template mutation\<close>

definition nsg_type :: string where
  "nsg_type = ''Microsoft.Network/networkSecurityGroups''"

definition vnet_type :: string where
  "vnet_type = ''Microsoft.Network/virtualNetworks''"

text \<open>
  The dependency edge the code looks for:
  \<^verbatim>\<open>[concat('Microsoft.Network/networkSecurityGroups/', variables('nsgName'))]\<close>.
\<close>

definition nsg_dependency :: string where
  "nsg_dependency =
     ''[concat('' @ [CHR 0x27] @ ''Microsoft.Network/networkSecurityGroups/'' @ [CHR 0x27]
       @ '', variables('' @ [CHR 0x27] @ ''nsgName'' @ [CHR 0x27] @ ''))]''"

text \<open>
  Python's \<^verbatim>\<open>xs.pop(i)\<close>: a negative index counts from the end, an index out of range
  (always, on the empty list) raises \<^verbatim>\<open>IndexError\<close>.
\<close>

definition py_pop :: "'a list \<Rightarrow> int \<Rightarrow> error + 'a list" where
  "py_pop xs i =
     (let n = int (length xs); j = (if i < 0 then i + n else i)
      in if 0 \<le> j \<and> j < n then Inr (take (nat j) xs @ drop (Suc (nat j)) xs)
         else Inl IndexError)"

text \<open>
  The loop over \<^verbatim>\<open>range(len(resources))\<close>, from index \<open>i\<close> on, with the current value of
  \<^verbatim>\<open>nsg_resource_index\<close>. The inner loop pops the first dependency equal to the edge and
  breaks: \<open>remove1\<close>. A virtual-network entry without \<^verbatim>\<open>dependsOn\<close> raises
  \<^verbatim>\<open>KeyError\<close>; what was popped before stays popped.
\<close>

fun scan_resources :: "resource list \<Rightarrow> nat \<Rightarrow> int \<Rightarrow> (resource list \<times> int) \<times> error option" where
  "scan_resources [] i nsg_resource_index = (([], nsg_resource_index), None)"
| "scan_resources (r # rs) i nsg_resource_index =
     (let idx = (if rtype r = nsg_type then int i else nsg_resource_index)
      in if rtype r = vnet_type then
           (case dependsOn r of
              None \<Rightarrow> ((r # rs, idx), Some (KeyError ''dependsOn''))
            | Some dependencies \<Rightarrow>
                (case scan_resources rs (Suc i) idx of
                   ((rs', k), err) \<Rightarrow>
                     ((r\<lparr>dependsOn := Some (remove1 nsg_dependency dependencies)\<rparr> # rs', k), err)))
         else
           (case scan_resources rs (Suc i) idx of
              ((rs', k), err) \<Rightarrow> ((r # rs', k), err)))"

text \<open>
  \<^verbatim>\<open>prepare_template_for_scale_up\<close>: returns the template as the call left it (the
  dictionary is mutated in place) and the exception raised, if any.
\<close>

definition prepare_template_for_scale_up :: "template \<Rightarrow> template \<times> error option" where
  "prepare_template_for_scale_up t =
     (case scan_resources (resources t) 0 (- 1) of
        ((rs, nsg_resource_index), Some e) \<Rightarrow> (t\<lparr>resources := rs\<rparr>, Some e)
      | ((rs, nsg_resource_index), None) \<Rightarrow>
          (case py_pop rs nsg_resource_index of
             Inl e \<Rightarrow> (t\<lparr>resources := rs\<rparr>, Some e)
           | Inr rs' \<Rightarrow> (t\<lparr>resources := rs'\<rparr>, None)))"

text \<open>
  What the loop does to one entry of \<^verbatim>\<open>resources\<close> that has a \<^verbatim>\<open>dependsOn\<close> list where it
  needs one; used to state the properties of the mutation.
\<close>

definition without_nsg_edge :: "resource \<Rightarrow> resource" where
  "without_nsg_edge r =
     (if rtype r = vnet_type
      then r\<lparr>dependsOn := map_option (remove1 nsg_dependency) (dependsOn r)\<rparr>
      else r)"

section \<open>Applying a change\<close>

text \<open>
  \<^verbatim>\<open>set_desired_acs_agent_pool_capacity\<close>: writes the count of the first agent pool profile
  (\<^verbatim>\<open>IndexError\<close> when there is none), nulls the service principal, remembers the desired
  capacity and submits the instance.
\<close>

definition set_desired_acs_agent_pool_capacity :: "container_service \<Rightarrow> int \<Rightarrow> outcome" where
  "set_desired_acs_agent_pool_capacity cs new_desired_capacity =
     (case agent_pool_profiles (instance_obj cs) of
        [] \<Rightarrow> (cs, [], Some IndexError)
      | c # profiles \<Rightarrow>
          (let i = (instance_obj cs)\<lparr>agent_pool_profiles := new_desired_capacity # profiles,
                                     service_principal_profile := None\<rparr>;
               cs' = cs\<lparr>instance_obj := i, desired_agent_pool_capacity := Some new_desired_capacity\<rparr>
           in (cs', [AcsCreateOrUpdate (resource_group_name cs') (container_service_name cs')
                       (instance_obj cs')], None)))"

text \<open>
  The loop of \<^verbatim>\<open>deploy_pools\<close> over \<^verbatim>\<open>self.agent_pools\<close>, writing into
  \<^verbatim>\<open>self.arm_parameters\<close>. \<^verbatim>\<open>new_pool_sizes[pool.name]\<close> is read before anything is written
  for the pool, on either value of \<^verbatim>\<open>is_scale_up\<close>.
\<close>

fun write_parameters :: "bool \<Rightarrow> int dict \<Rightarrow> agent_pool list \<Rightarrow> param dict \<Rightarrow> param dict \<times> error option" where
  "write_parameters is_scale_up new_pool_sizes [] ps = (ps, None)"
| "write_parameters is_scale_up new_pool_sizes (pool # rest) ps =
     (case map_of new_pool_sizes (name pool) of
        None \<Rightarrow> (ps, Some (KeyError (name pool)))
      | Some n \<Rightarrow>
          (let ps1 = (if is_scale_up \<and> actual_capacity pool < n
                      then AList.update (name pool @ ''Offset'') (Value (actual_capacity pool)) ps
                      else ps);
               ps2 = AList.update (name pool @ ''Count'') (Value n) ps1
           in write_parameters is_scale_up new_pool_sizes rest ps2))"

text \<open>
  \<^verbatim>\<open>deploy_pools\<close>. The parameters and the template submitted are the objects stored in
  \<^verbatim>\<open>self\<close>, which the loop and \<^verbatim>\<open>prepare_template_for_scale_up\<close> have mutated.
\<close>

definition deploy_pools :: "container_service \<Rightarrow> int dict \<Rightarrow> bool \<Rightarrow> outcome" where
  "deploy_pools cs new_pool_sizes is_scale_up =
     (case write_parameters is_scale_up new_pool_sizes (agent_pools cs) (arm_parameters cs) of
        (ps, Some e) \<Rightarrow> (cs\<lparr>arm_parameters := ps\<rparr>, [], Some e)
      | (ps, None) \<Rightarrow>
          (let cs1 = cs\<lparr>arm_parameters := ps\<rparr>
           in case (if is_scale_up then prepare_template_for_scale_up (arm_template cs1)
                    else (arm_template cs1, None)) of
                (t, Some e) \<Rightarrow> (cs1\<lparr>arm_template := t\<rparr>, [], Some e)
              | (t, None) \<Rightarrow>
                  (let cs2 = cs1\<lparr>arm_template := t\<rparr>
                   in (cs2, [ArmCreateOrUpdate (resource_group_name cs2) (arm_template cs2)
                               (arm_parameters cs2)], None))))"

section \<open>The reconciliation pass\<close>

text \<open>
  The first loop of \<^verbatim>\<open>scale_pools\<close>: the dictionary \<^verbatim>\<open>new_pool_sizes\<close> and the flag
  \<^verbatim>\<open>has_changes\<close> are threaded through, the events of the iterations are returned in order.
  The comparison with \<^verbatim>\<open>pool.actual_capacity\<close> reads back the entry just written, which is
  \<open>target\<close>.
\<close>

fun scale_pools_loop :: "bool \<Rightarrow> agent_pool list \<Rightarrow> int dict \<Rightarrow> bool
    \<Rightarrow> int dict \<times> bool \<times> event list \<times> error option" where
  "scale_pools_loop dry_run [] new_pool_sizes has_changes = (new_pool_sizes, has_changes, [], None)"
| "scale_pools_loop dry_run (pool # rest) new_pool_sizes has_changes =
     (case map_of new_pool_sizes (name pool) of
        None \<Rightarrow> (new_pool_sizes, has_changes, [], Some (KeyError (name pool)))
      | Some new_size \<Rightarrow>
          (let target = min (max_size pool) new_size;
               sizes = AList.update (name pool) target new_pool_sizes
           in if target = actual_capacity pool then
                (case scale_pools_loop dry_run rest sizes has_changes of
                   (s, h, evs, err) \<Rightarrow>
                     (s, h, Info (AlreadyAt (name pool) (actual_capacity pool)) # evs, err))
              else
                (case scale_pools_loop dry_run rest sizes True of
                   (s, h, evs, err) \<Rightarrow>
                     (s, h,
                      (if \<not> dry_run then
                         (if new_size > actual_capacity pool then [Reclaim (name pool) new_size] else [])
                       else [Info (DryRunWould (name pool) new_size (actual_capacity pool))]) @ evs,
                      err))))"

text \<open>
  The fixed-topology branch: one \<^verbatim>\<open>deploy\<close> for each pool of \<^verbatim>\<open>self.agent_pools\<close>; the
  operation reads \<^verbatim>\<open>new_pool_sizes[pool.name]\<close> when it runs. An exception ends the loop.
\<close>

fun resize_pools :: "int dict \<Rightarrow> agent_pool list \<Rightarrow> container_service \<Rightarrow> outcome" where
  "resize_pools new_pool_sizes [] cs = (cs, [], None)"
| "resize_pools new_pool_sizes (pool # rest) cs =
     (case deploy (\<lambda>c. case map_of new_pool_sizes (name pool) of
                          None \<Rightarrow> (c, [], Some (KeyError (name pool)))
                        | Some n \<Rightarrow> set_desired_acs_agent_pool_capacity c n)
             new_pool_sizes cs of
        (cs1, evs1, Some e) \<Rightarrow> (cs1, evs1, Some e)
      | (cs1, evs1, None) \<Rightarrow>
          (case resize_pools new_pool_sizes rest cs1 of
             (cs2, evs2, err) \<Rightarrow> (cs2, evs1 @ evs2, err)))"

text \<open>
  \<^verbatim>\<open>scale_pools\<close>; the dictionary \<^verbatim>\<open>new_pool_sizes\<close>, which the caller still holds, is
  returned as the call left it.
\<close>

definition scale_pools :: "container_service \<Rightarrow> int dict \<Rightarrow> bool \<Rightarrow> bool
    \<Rightarrow> container_service \<times> int dict \<times> event list \<times> error option" where
  "scale_pools cs new_pool_sizes dry_run is_scale_up =
     (case scale_pools_loop dry_run (agent_pools cs) new_pool_sizes False of
        (sizes, has_changes, evs, Some e) \<Rightarrow> (cs, sizes, evs, Some e)
      | (sizes, has_changes, evs, None) \<Rightarrow>
          if \<not> dry_run \<and> has_changes then
            (case (if \<not> is_acs_engine cs then resize_pools sizes (agent_pools cs) cs
                   else deploy (\<lambda>c. deploy_pools c sizes is_scale_up) sizes cs) of
               (cs', evs', err) \<Rightarrow> (cs', sizes, evs @ evs', err))
          else (cs, sizes, evs, None))"

text \<open>The loop of \<^verbatim>\<open>scale_down\<close>, building \<^verbatim>\<open>new_pool_sizes\<close>.\<close>

fun scale_down_loop :: "int dict \<Rightarrow> agent_pool list \<Rightarrow> int dict \<Rightarrow> int dict \<times> event list \<times> error option" where
  "scale_down_loop trim_map [] new_pool_sizes = (new_pool_sizes, [], None)"
| "scale_down_loop trim_map (pool # rest) new_pool_sizes =
     (case map_of trim_map (name pool) of
        None \<Rightarrow> (new_pool_sizes, [], Some (KeyError (name pool)))
      | Some trim \<Rightarrow>
          (let new_agent_count = actual_capacity pool - trim
           in if new_agent_count \<le> 0 then (new_pool_sizes, [], Some (InvalidScaleDown (name pool)))
              else
                (case scale_down_loop trim_map rest
                        (AList.update (name pool) new_agent_count new_pool_sizes) of
                   (s, evs, err) \<Rightarrow> (s, Info (ScalingDown (name pool) trim) # evs, err))))"

definition scale_down :: "container_service \<Rightarrow> int dict \<Rightarrow> bool \<Rightarrow> outcome" where
  "scale_down cs trim_map dry_run =
     (case scale_down_loop trim_map (agent_pools cs) [] of
        (new_pool_sizes, evs, Some e) \<Rightarrow> (cs, evs, Some e)
      | (new_pool_sizes, evs, None) \<Rightarrow>
          (case scale_pools cs new_pool_sizes dry_run False of
             (cs', sizes, evs', err) \<Rightarrow> (cs', evs @ evs', err)))"

section \<open>Node teardown\<close>

text \<open>
  Python's \<^verbatim>\<open>s.split(sep)\<close> for a separator of one character: the result is never empty,
  and two separators in a row give an empty field.
\<close>

fun py_split :: "char \<Rightarrow> string \<Rightarrow> string list" where
  "py_split sep [] = [[]]"
| "py_split sep (c # cs) =
     (if c = sep then [] # py_split sep cs
      else (case py_split sep cs of
              [] \<Rightarrow> [[c]]
            | w # ws \<Rightarrow> (c # w) # ws))"

text \<open>\<^verbatim>\<open>xs[i]\<close> for a non-negative literal index.\<close>

definition py_index :: "'a list \<Rightarrow> nat \<Rightarrow> error + 'a" where
  "py_index xs i = (if i < length xs then Inr (xs ! i) else Inl IndexError)"

text \<open>
  The name of the network interface, lines 88 and 89:
  \<^verbatim>\<open>'{}-{}-{}-nic-{}'.format(name_parts[0], name_parts[1], name_parts[2], name_parts[3])\<close>.
\<close>

definition nic_name :: "string \<Rightarrow> error + string" where
  "nic_name node_nm =
     (let name_parts = py_split CHR ''-'' node_nm
      in case py_index name_parts 0 of Inl e \<Rightarrow> Inl e | Inr p0 \<Rightarrow>
         (case py_index name_parts 1 of Inl e \<Rightarrow> Inl e | Inr p1 \<Rightarrow>
         (case py_index name_parts 2 of Inl e \<Rightarrow> Inl e | Inr p2 \<Rightarrow>
         (case py_index name_parts 3 of Inl e \<Rightarrow> Inl e | Inr p3 \<Rightarrow>
            Inr (p0 @ ''-'' @ p1 @ ''-'' @ p2 @ ''-nic-'' @ p3)))))"

text \<open>
  What the provider answers to the two reads of the teardown: the URI of the OS disk of a
  virtual machine, by its name, and the key values of a storage account, by its name.
\<close>

record provider =
  vhd_uri :: "string \<Rightarrow> string"
  account_keys :: "string \<Rightarrow> string list"

text \<open>
  The names the module binds at top level: its imports, \<^verbatim>\<open>logger\<close> and the class.
  \<^verbatim>\<open>ComputeManagementClient\<close>, which line 66 reads, is not among them.
\<close>

definition module_globals :: "string list" where
  "module_globals =
     [''get_mgmt_service_client'', ''ResourceManagementClient'', ''ContainerServiceClient'',
      ''StorageManagementClient'', ''BlockBlobService'', ''time'', ''logging'', ''utils'',
      ''AgentPool'', ''logger'', ''ContainerService'']"

text \<open>
  \<^verbatim>\<open>delete_resources_for_node\<close>, in the global namespace \<open>globals\<close>: reading an unbound
  name raises \<^verbatim>\<open>NameError\<close>. Each provider call is recorded and returns normally.
\<close>

definition delete_resources_for_node :: "string list \<Rightarrow> provider \<Rightarrow> kube_node \<Rightarrow> container_service \<Rightarrow> outcome" where
  "delete_resources_for_node globals prov node cs =
     (let g = resource_group_name cs; n = node_name node; ev0 = [Info (DeletingNode n)]
      in if ''ComputeManagementClient'' \<notin> set globals
         then (cs, ev0, Some (NameError ''ComputeManagementClient''))
         else
           (let ev1 = ev0 @ [VmGet g n];
                storage_infos = py_split CHR ''/'' (vhd_uri prov n)
            in case py_index storage_infos 2 of Inl e \<Rightarrow> (cs, ev1, Some e) | Inr host \<Rightarrow>
               (case py_index (py_split CHR ''.'' host) 0 of Inl e \<Rightarrow> (cs, ev1, Some e) | Inr account_name \<Rightarrow>
               (case py_index storage_infos 3 of Inl e \<Rightarrow> (cs, ev1, Some e) | Inr container_name \<Rightarrow>
               (case py_index storage_infos 4 of Inl e \<Rightarrow> (cs, ev1, Some e) | Inr blob_name \<Rightarrow>
                  (let ev2 = ev1 @ [Info DeletingVM,
                                    ResourceDelete g ''Microsoft.Compute'' ''virtualMachines'' n,
                                    Wait, Info DeletingNIC]
                   in case nic_name n of Inl e \<Rightarrow> (cs, ev2, Some e) | Inr nic \<Rightarrow>
                      (let ev3 = ev2 @ [ResourceDelete g ''Microsoft.Network'' ''networkInterfaces'' nic,
                                        Wait, Info DeletingOSDisk, ListKeys g account_name]
                       in case py_index (account_keys prov account_name) 0 of
                            Inl e \<Rightarrow> (cs, ev3, Some e)
                          | Inr key \<Rightarrow>
                              (cs, ev3 @ [DeleteBlob account_name key container_name blob_name],
                               None))))))))"

text \<open>
  The loop of \<^verbatim>\<open>delete_node\<close>: \<^verbatim>\<open>for pool in self.agent_pools\<close> assigns each pool to the
  local variable \<^verbatim>\<open>pool\<close>, which is also the method's parameter; the loop returns the
  variable as it stands afterwards, with the dictionary.
\<close>

fun delete_node_loop :: "agent_pool list \<Rightarrow> agent_pool \<Rightarrow> int dict \<Rightarrow> agent_pool \<times> int dict" where
  "delete_node_loop [] pool pool_sizes = (pool, pool_sizes)"
| "delete_node_loop (p # rest) pool pool_sizes =
     delete_node_loop rest p (AList.update (name p) (actual_capacity p) pool_sizes)"

definition delete_node :: "string list \<Rightarrow> provider \<Rightarrow> container_service \<Rightarrow> agent_pool \<Rightarrow> kube_node \<Rightarrow> outcome" where
  "delete_node globals prov cs pool node =
     (case delete_node_loop (agent_pools cs) pool [] of
        (pool', pool_sizes) \<Rightarrow>
          deploy (delete_resources_for_node globals prov node)
            (AList.update (name pool') (actual_capacity pool' - 1) pool_sizes) cs)"

section \<open>The outer loop of \<^verbatim>\<open>main.py\<close>\<close>

text \<open>
  The \<^verbatim>\<open>while True\<close> loop of \<^verbatim>\<open>main\<close>, run over a finite list of the results of
  \<^verbatim>\<open>cluster.scale_loop(debug)\<close>, one for each iteration: the events, the value of
  \<^verbatim>\<open>backoff\<close> afterwards, and the exception that ended the loop, if any
  (\<^verbatim>\<open>time.sleep\<close> raises \<^verbatim>\<open>ValueError\<close> on a negative length).
\<close>

fun main_loop :: "int \<Rightarrow> int \<Rightarrow> bool list \<Rightarrow> event list \<times> int \<times> error option" where
  "main_loop sleep backoff [] = ([], backoff, None)"
| "main_loop sleep backoff (scaled # rest) =
     (if scaled then
        (if sleep < 0 then ([], backoff, Some ValueError)
         else (case main_loop sleep sleep rest of
                 (evs, b, err) \<Rightarrow> (Sleep sleep # evs, b, err)))
      else
        (let backoff2 = backoff * 2
         in if backoff2 < 0 then ([Info (Backoff backoff)], backoff2, Some ValueError)
            else (case main_loop sleep backoff2 rest of
                    (evs, b, err) \<Rightarrow> (Info (Backoff backoff) # Sleep backoff2 # evs, b, err))))"

text \<open>\<^verbatim>\<open>main\<close> enters the loop with \<^verbatim>\<open>backoff = sleep\<close>.\<close>

definition main :: "int \<Rightarrow> bool list \<Rightarrow> event list \<times> int \<times> error option" where
  "main sleep outcomes = main_loop sleep sleep outcomes"

section \<open>Example inputs\<close>

text \<open>Two pools, the second at its maximum size, in a fixed-topology service.\<close>

definition example_pools :: "agent_pool list" where
  "example_pools =
     [\<lparr>name = ''a'', actual_capacity = 3, max_size = 100\<rparr>,
      \<lparr>name = ''b'', actual_capacity = 4, max_size = 4\<rparr>]"

definition example_service :: container_service where
  "example_service =
     \<lparr>resource_group_name = ''rg'', container_service_name = ''svc'', is_acs_engine = False,
      agent_pools = example_pools, arm_parameters = [], arm_template = \<lparr>resources = []\<rparr>,
      instance_obj = \<lparr>agent_pool_profiles = [3], service_principal_profile = Some ''sp''\<rparr>,
      desired_agent_pool_capacity = None\<rparr>"

text \<open>
  A template of the shape \<^verbatim>\<open>prepare_template_for_scale_up\<close> expects, the same service on the
  templated topology, and that service after one scale-up deployment to 5 and 4 agents.
\<close>

definition example_template :: template where
  "example_template =
     \<lparr>resources =
        [\<lparr>rtype = nsg_type, dependsOn = None, body = ''nsg''\<rparr>,
         \<lparr>rtype = vnet_type, dependsOn = Some [nsg_dependency, ''routeTable''], body = ''vnet''\<rparr>,
         \<lparr>rtype = ''Microsoft.Compute/virtualMachines'', dependsOn = Some [], body = ''vm''\<rparr>]\<rparr>"

definition example_engine :: container_service where
  "example_engine = example_service\<lparr>is_acs_engine := True, arm_template := example_template\<rparr>"

definition example_after :: container_service where
  "example_after =
     example_engine
       \<lparr>arm_parameters := [(''aOffset'', Value 3), (''aCount'', Value 5), (''bCount'', Value 4)],
        arm_template :=
          \<lparr>resources =
             [\<lparr>rtype = vnet_type, dependsOn = Some [''routeTable''], body = ''vnet''\<rparr>,
              \<lparr>rtype = ''Microsoft.Compute/virtualMachines'', dependsOn = Some [], body = ''vm''\<rparr>]\<rparr>\<rparr>"

text \<open>
  The node of the teardown scenario, and a provider that answers every read with the same
  disk URI and the same single key.
\<close>

definition example_provider :: provider where
  "example_provider =
     \<lparr>vhd_uri = (\<lambda>n. ''https://acct.blob.core.windows.net/vhds/osdisk.vhd''),
      account_keys = (\<lambda>a. [''key1''])\<rparr>"

definition example_node :: kube_node where
  "example_node = \<lparr>node_name = ''pool-a-12345-vm-3''\<rparr>"

section \<open>Properties of the outer loop\<close>

text \<open>With a non-negative \<^verbatim>\<open>--sleep\<close> no \<^verbatim>\<open>time.sleep\<close> raises, and \<^verbatim>\<open>backoff\<close> never falls below it.\<close>

lemma main_loop_ok:
  "0 \<le> sleep \<Longrightarrow> sleep \<le> b \<Longrightarrow> \<exists>evs b'. main_loop sleep b xs = (evs, b', None) \<and> sleep \<le> b'"
proof (induction xs arbitrary: b)
  case Nil
  then show ?case by simp
next
  case (Cons x xs)
  show ?case
  proof (cases x)
    case True
    from Cons.IH [of sleep] Cons.prems obtain evs b' where
      "main_loop sleep sleep xs = (evs, b', None)" "sleep \<le> b'" by auto
    with True Cons.prems show ?thesis by simp
  next
    case False
    from Cons.prems have "sleep \<le> b * 2" by simp
    from Cons.IH [OF Cons.prems(1) this] obtain evs b' where
      "main_loop sleep (b * 2) xs = (evs, b', None)" "sleep \<le> b'" by auto
    with False Cons.prems show ?thesis by (simp add: Let_def)
  qed
qed

lemma main_loop_append:
  "main_loop sleep b xs = (evs, b', None) \<Longrightarrow>
   main_loop sleep b (xs @ ys) =
     (case main_loop sleep b' ys of (evs2, b2, err) \<Rightarrow> (evs @ evs2, b2, err))"
proof (induction xs arbitrary: b evs)
  case Nil
  then show ?case by (simp split: prod.splits)
next
  case (Cons x xs)
  then show ?case
    by (auto simp: Let_def split: if_splits prod.splits)
qed

lemma main_loop_replicate_False:
  "0 \<le> b \<Longrightarrow> fst (snd (main_loop sleep b (replicate k False))) = b * 2 ^ k"
proof (induction k arbitrary: b)
  case 0
  then show ?case by simp
next
  case (Suc k)
  from Suc.prems have "0 \<le> b * 2" by simp
  from Suc.IH [OF this] Suc.prems show ?case
    by (cases "main_loop sleep (b * 2) (replicate k False)") (auto simp: Let_def)
qed

lemma exceeds: "0 < (b::int) \<Longrightarrow> bound < b * 2 ^ nat bound"
proof -
  assume b: "0 < b"
  have "nat bound < 2 ^ nat bound" by (rule less_exp)
  then have "int (nat bound) < int (2 ^ nat bound)" by (simp only: of_nat_less_iff)
  then have "int (nat bound) < 2 ^ nat bound" by simp
  moreover have "bound \<le> int (nat bound)" by simp
  ultimately have "bound < 2 ^ nat bound" by linarith
  moreover have "(2::int) ^ nat bound \<le> b * 2 ^ nat bound" using b by simp
  ultimately show ?thesis by linarith
qed

text \<open>
  Claim C9. After any history of iterations, with a non-negative \<^verbatim>\<open>--sleep\<close>: an iteration
  in which \<^verbatim>\<open>scale_loop\<close> reports that nothing was scaled doubles \<^verbatim>\<open>backoff\<close> and sleeps for
  the doubled interval; an iteration in which scaling occurred sleeps for \<^verbatim>\<open>sleep\<close> and
  resets \<^verbatim>\<open>backoff\<close> to it; and the doubling has no upper bound: for a positive
  \<^verbatim>\<open>--sleep\<close>, enough further iterations without scaling take the interval above any bound.
\<close>

theorem main_backoff:
  assumes "0 \<le> sleep"
  shows "\<exists>evs b. main sleep outcomes = (evs, b, None)
       \<and> main sleep (outcomes @ [False]) = (evs @ [Info (Backoff b), Sleep (b * 2)], b * 2, None)
       \<and> main sleep (outcomes @ [True]) = (evs @ [Sleep sleep], sleep, None)
       \<and> (0 < sleep \<longrightarrow> (\<exists>k. bound < fst (snd (main sleep (outcomes @ replicate k False)))))"
proof -
  from main_loop_ok [OF assms, of sleep outcomes] obtain evs b where
    run: "main_loop sleep sleep outcomes = (evs, b, None)" and b: "sleep \<le> b" by auto
  from b assms have b0: "0 \<le> b" by simp
  have f: "main_loop sleep sleep (outcomes @ [False])
             = (evs @ [Info (Backoff b), Sleep (b * 2)], b * 2, None)"
    using main_loop_append [OF run, of "[False]"] b0 by (simp add: Let_def)
  have t: "main_loop sleep sleep (outcomes @ [True]) = (evs @ [Sleep sleep], sleep, None)"
    using main_loop_append [OF run, of "[True]"] assms by simp
  have u: "\<exists>k. bound < fst (snd (main_loop sleep sleep (outcomes @ replicate k False)))"
    if pos: "0 < sleep"
  proof -
    from pos b have "0 < b" by simp
    then have "bound < b * 2 ^ nat bound" by (rule exceeds)
    moreover have "fst (snd (main_loop sleep sleep (outcomes @ replicate (nat bound) False)))
                     = b * 2 ^ nat bound"
      using main_loop_append [OF run, of "replicate (nat bound) False"]
            main_loop_replicate_False [OF b0, of sleep "nat bound"]
      by (cases "main_loop sleep b (replicate (nat bound) False)") auto
    ultimately show ?thesis by metis
  qed
  from run f t u show ?thesis unfolding main_def by blast
qed

text \<open>The theorem at \<^verbatim>\<open>--sleep 60\<close>, after the iterations no-scale, scale, no-scale.\<close>

theorem main_backoff_witness:
  "(0::int) \<le> 60 \<and> (\<exists>evs b. main 60 [False, True, False] = (evs, b, None)
       \<and> main 60 ([False, True, False] @ [False]) = (evs @ [Info (Backoff b), Sleep (b * 2)], b * 2, None)
       \<and> main 60 ([False, True, False] @ [True]) = (evs @ [Sleep 60], 60, None)
       \<and> ((0::int) < 60 \<longrightarrow> (\<exists>k. 100000 < fst (snd (main 60 ([False, True, False] @ replicate k False))))))"
  using main_backoff [of 60 "[False, True, False]" 100000] by simp

section \<open>Properties of pool partitioning\<close>

text \<open>
  The pools \<^verbatim>\<open>get_agent_pools\<close> builds come from the keys of a dictionary: no two of them
  have the same name. The properties below assume this of \<^verbatim>\<open>self.agent_pools\<close>.
\<close>

lemma setdefault_append_keys:
  "map fst (setdefault_append k x d) = (if k \<in> fst ` set d then map fst d else map fst d @ [k])"
  by (induction d) (auto split: if_splits)

lemma setdefault_append_distinct:
  "distinct (map fst d) \<Longrightarrow> distinct (map fst (setdefault_append k x d))"
  by (simp add: setdefault_append_keys)

lemma fold_setdefault_distinct:
  "distinct (map fst d) \<Longrightarrow>
   distinct (map fst (fold (\<lambda>node pools. setdefault_append (f node) node pools) nodes d))"
  by (induction nodes arbitrary: d) (simp_all add: setdefault_append_distinct)

lemma names_of_built_pools:
  "map name (map (\<lambda>(pool_name, members). AgentPool ceiling pool_name members) d) = map fst d"
  by (induction d) (auto simp: AgentPool_def)

lemma get_agent_pools_distinct:
  "distinct (map name (get_agent_pools get_pool_name ceiling nodes))"
  unfolding get_agent_pools_def Let_def names_of_built_pools
  using fold_setdefault_distinct [of "[]" get_pool_name nodes] by simp

section \<open>Properties of the reconciliation pass\<close>

subsection \<open>The first loop of \<^verbatim>\<open>scale_pools\<close>\<close>


lemma scale_pools_loop_valid:
  assumes "distinct (map name pools)"
      and "\<forall>p\<in>set pools. map_of sizes (name p) = Some (cand p)"
  shows "\<exists>s. scale_pools_loop dry_run pools sizes h =
           (s,
            h \<or> (\<exists>p\<in>set pools. min (max_size p) (cand p) \<noteq> actual_capacity p),
            concat (map (\<lambda>p. if min (max_size p) (cand p) = actual_capacity p
                              then [Info (AlreadyAt (name p) (actual_capacity p))]
                              else if \<not> dry_run
                                   then (if cand p > actual_capacity p then [Reclaim (name p) (cand p)] else [])
                                   else [Info (DryRunWould (name p) (cand p) (actual_capacity p))]) pools),
            None)
         \<and> (\<forall>p\<in>set pools. map_of s (name p) = Some (min (max_size p) (cand p)))
         \<and> (\<forall>k. k \<notin> name ` set pools \<longrightarrow> map_of s k = map_of sizes k)"
  using assms
proof (induction pools arbitrary: sizes h)
  case Nil
  then show ?case by simp
next
  case (Cons pool rest)
  let ?t = "min (max_size pool) (cand pool)"
  let ?sizes = "AList.update (name pool) ?t sizes"
  let ?h = "h \<or> ?t \<noteq> actual_capacity pool"
  from Cons.prems have c: "map_of sizes (name pool) = Some (cand pool)" by simp
  from Cons.prems have d: "distinct (map name rest)" and nin: "name pool \<notin> name ` set rest" by auto
  have tot: "\<forall>p\<in>set rest. map_of ?sizes (name p) = Some (cand p)"
  proof
    fix p assume p: "p \<in> set rest"
    with nin have "name p \<noteq> name pool" by (metis imageI)
    with p Cons.prems(2) show "map_of ?sizes (name p) = Some (cand p)"
      by (simp add: update_conv')
  qed
  from Cons.IH [OF d tot, of ?h] obtain s where
    run: "scale_pools_loop dry_run rest ?sizes ?h =
           (s,
            ?h \<or> (\<exists>p\<in>set rest. min (max_size p) (cand p) \<noteq> actual_capacity p),
            concat (map (\<lambda>p. if min (max_size p) (cand p) = actual_capacity p
                              then [Info (AlreadyAt (name p) (actual_capacity p))]
                              else if \<not> dry_run
                                   then (if cand p > actual_capacity p then [Reclaim (name p) (cand p)] else [])
                                   else [Info (DryRunWould (name p) (cand p) (actual_capacity p))]) rest),
            None)"
    and tg: "\<forall>p\<in>set rest. map_of s (name p) = Some (min (max_size p) (cand p))"
    and fr: "\<forall>k. k \<notin> name ` set rest \<longrightarrow> map_of s k = map_of ?sizes k"
    by blast
  from fr nin have own: "map_of s (name pool) = Some ?t" by (simp add: update_conv')
  have fr': "\<forall>k. k \<notin> name ` set (pool # rest) \<longrightarrow> map_of s k = map_of sizes k"
    using fr by (auto simp: update_conv')
  have step: "scale_pools_loop dry_run (pool # rest) sizes h =
           (s,
            h \<or> (\<exists>p\<in>set (pool # rest). min (max_size p) (cand p) \<noteq> actual_capacity p),
            concat (map (\<lambda>p. if min (max_size p) (cand p) = actual_capacity p
                              then [Info (AlreadyAt (name p) (actual_capacity p))]
                              else if \<not> dry_run
                                   then (if cand p > actual_capacity p then [Reclaim (name p) (cand p)] else [])
                                   else [Info (DryRunWould (name p) (cand p) (actual_capacity p))]) (pool # rest)),
            None)"
  proof (cases "?t = actual_capacity pool")
    case True
    with run c show ?thesis by (simp add: Let_def)
  next
    case False
    with run c show ?thesis by (simp add: Let_def)
  qed
  from step own tg fr' show ?case by auto
qed

lemma scale_pools_sizes:
"fst (snd (scale_pools cs new_pool_sizes dry_run is_scale_up))
     = fst (scale_pools_loop dry_run (agent_pools cs) new_pool_sizes False)"
  by (simp add: scale_pools_def split: prod.splits option.splits)

lemma concat_singletons: "concat (map (\<lambda>x. [f x]) xs) = map f xs"
  by (induction xs) simp_all

text \<open>
  Claim C1. For pools of distinct names and an intent with a candidate for each of them,
  \<^verbatim>\<open>scale_pools\<close> leaves \<open>min (max_size p) (cand p)\<close> in \<^verbatim>\<open>new_pool_sizes\<close> for every
  pool \<open>p\<close>; and when that equals \<^verbatim>\<open>actual_capacity\<close> for every pool, the pass returns
  normally with the service object unchanged, having issued no mutating call: its events are
  the "already at desired capacity" log lines, one for each pool.
\<close>

theorem scale_pools_clamp_noop:
  assumes "distinct (map name (agent_pools cs))"
      and "\<forall>p\<in>set (agent_pools cs). map_of new_pool_sizes (name p) = Some (cand p)"
  shows "\<exists>cs' sizes evs err. scale_pools cs new_pool_sizes dry_run is_scale_up = (cs', sizes, evs, err)
      \<and> (\<forall>p\<in>set (agent_pools cs). map_of sizes (name p) = Some (min (max_size p) (cand p)))
      \<and> ((\<forall>p\<in>set (agent_pools cs). min (max_size p) (cand p) = actual_capacity p) \<longrightarrow>
            cs' = cs \<and> err = None \<and> filter mutating evs = []
            \<and> evs = map (\<lambda>p. Info (AlreadyAt (name p) (actual_capacity p))) (agent_pools cs))"
proof -
  let ?evs = "concat (map (\<lambda>p. if min (max_size p) (cand p) = actual_capacity p
                              then [Info (AlreadyAt (name p) (actual_capacity p))]
                              else if \<not> dry_run
                                   then (if cand p > actual_capacity p then [Reclaim (name p) (cand p)] else [])
                                   else [Info (DryRunWould (name p) (cand p) (actual_capacity p))])
                    (agent_pools cs))"
  let ?h = "\<exists>p\<in>set (agent_pools cs). min (max_size p) (cand p) \<noteq> actual_capacity p"
  from scale_pools_loop_valid [OF assms, of dry_run False] obtain s where
    run: "scale_pools_loop dry_run (agent_pools cs) new_pool_sizes False = (s, ?h, ?evs, None)"
    and tg: "\<forall>p\<in>set (agent_pools cs). map_of s (name p) = Some (min (max_size p) (cand p))"
    by auto
  obtain cs' evs err where res: "scale_pools cs new_pool_sizes dry_run is_scale_up = (cs', s, evs, err)"
    using run scale_pools_sizes [of cs new_pool_sizes dry_run is_scale_up]
    by (cases "scale_pools cs new_pool_sizes dry_run is_scale_up") simp
  have noop: "cs' = cs \<and> err = None \<and> filter mutating evs = []
            \<and> evs = map (\<lambda>p. Info (AlreadyAt (name p) (actual_capacity p))) (agent_pools cs)"
    if all: "\<forall>p\<in>set (agent_pools cs). min (max_size p) (cand p) = actual_capacity p"
  proof -
    from all have nh: "\<not> ?h" by simp
    from all have "?evs = concat (map (\<lambda>p. [Info (AlreadyAt (name p) (actual_capacity p))]) (agent_pools cs))"
      by (intro arg_cong [where f = concat] map_cong) auto
    then have e: "?evs = map (\<lambda>p. Info (AlreadyAt (name p) (actual_capacity p))) (agent_pools cs)"
      by (simp only: concat_singletons)
    from run nh have "scale_pools cs new_pool_sizes dry_run is_scale_up = (cs, s, ?evs, None)"
      by (simp add: scale_pools_def)
    with res have "(cs', s, evs, err) = (cs, s, ?evs, None)" by (simp only:)
    then have c: "cs' = cs" "err = None" and "evs = ?evs"
      by (simp_all only: prod.inject)
    with e have m: "evs = map (\<lambda>p. Info (AlreadyAt (name p) (actual_capacity p))) (agent_pools cs)"
      by (simp only:)
    then have "filter mutating evs = []" by (simp add: filter_empty_conv)
    with c m show ?thesis by simp
  qed
  from res tg noop show ?thesis by blast
qed

text \<open>The theorem on the example: pool \<open>a\<close> asked to stay at 3, pool \<open>b\<close> asked for 10 at its maximum 4.\<close>

theorem scale_pools_clamp_noop_witness:
  "distinct (map name (agent_pools example_service))
   \<and> map (\<lambda>p. map_of [(''a'', 3), (''b'', 10)] (name p)) (agent_pools example_service) = [Some 3, Some 10]
   \<and> map (\<lambda>p. min (max_size p) (if name p = ''a'' then 3 else 10) = actual_capacity p)
         (agent_pools example_service) = [True, True]
   \<and> (\<exists>sizes. scale_pools example_service [(''a'', 3), (''b'', 10)] False True
          = (example_service, sizes, [Info (AlreadyAt ''a'' 3), Info (AlreadyAt ''b'' 4)], None)
        \<and> map_of sizes ''a'' = Some 3 \<and> map_of sizes ''b'' = Some 4)"
  using scale_pools_clamp_noop [of example_service "[(''a'', 3), (''b'', 10)]" 
          "\<lambda>p. if name p = ''a'' then 3 else 10" False True]
  by (simp add: example_service_def example_pools_def)

subsection \<open>Scale-down\<close>

lemma scale_down_loop_quiet:
  "scale_down_loop trim_map pools nps = (s, evs, err) \<Longrightarrow> filter mutating evs = []"
proof (induction pools arbitrary: nps s evs err)
  case Nil
  then show ?case by simp
next
  case (Cons pool rest)
  show ?case
  proof (cases "map_of trim_map (name pool)")
    case None
    with Cons.prems show ?thesis by simp
  next
    case (Some t)
    show ?thesis
    proof (cases "actual_capacity pool - t \<le> 0")
      case True
      with Cons.prems Some show ?thesis by simp
    next
      case False
      let ?nps = "AList.update (name pool) (actual_capacity pool - t) nps"
      obtain s1 evs1 err1 where r: "scale_down_loop trim_map rest ?nps = (s1, evs1, err1)"
        by (cases "scale_down_loop trim_map rest ?nps") auto
      from Cons.IH [OF r] Cons.prems Some False r show ?thesis by (auto simp: Let_def)
    qed
  qed
qed

lemma scale_down_loop_raises:
  assumes "\<exists>p\<in>set pools. \<exists>t. map_of trim_map (name p) = Some t \<and> actual_capacity p - t \<le> 0"
  shows "\<exists>s evs e. scale_down_loop trim_map pools nps = (s, evs, Some e)
           \<and> ((\<forall>p\<in>set pools. name p \<in> dom (map_of trim_map)) \<longrightarrow>
                (\<exists>p\<in>set pools. \<exists>t. e = InvalidScaleDown (name p)
                    \<and> map_of trim_map (name p) = Some t \<and> actual_capacity p - t \<le> 0))"
  using assms
proof (induction pools arbitrary: nps)
  case Nil
  then show ?case by simp
next
  case (Cons pool rest)
  show ?case
  proof (cases "map_of trim_map (name pool)")
    case None
    then have "name pool \<notin> dom (map_of trim_map)" by (simp add: domIff)
    with None show ?thesis by auto
  next
    case (Some t)
    show ?thesis
    proof (cases "actual_capacity pool - t \<le> 0")
      case True
      with Some show ?thesis by auto
    next
      case False
      let ?nps = "AList.update (name pool) (actual_capacity pool - t) nps"
      from Cons.prems Some False
      have "\<exists>p\<in>set rest. \<exists>t. map_of trim_map (name p) = Some t \<and> actual_capacity p - t \<le> 0"
        by auto
      from Cons.IH [OF this, of ?nps] obtain s evs e where
        r: "scale_down_loop trim_map rest ?nps = (s, evs, Some e)"
        and v: "(\<forall>p\<in>set rest. name p \<in> dom (map_of trim_map)) \<longrightarrow>
                (\<exists>p\<in>set rest. \<exists>t. e = InvalidScaleDown (name p)
                    \<and> map_of trim_map (name p) = Some t \<and> actual_capacity p - t \<le> 0)"
        by blast
      from r Some False
      have "scale_down_loop trim_map (pool # rest) nps
              = (s, Info (ScalingDown (name pool) t) # evs, Some e)"
        by (simp add: Let_def)
      with v show ?thesis by auto
    qed
  qed
qed

text \<open>
  Claim C2. When the trim map has, for some pool, an entry that leaves
  \<^verbatim>\<open>actual_capacity - trim\<close> at or under zero, \<^verbatim>\<open>scale_down\<close> raises, leaves the service
  object unchanged and issues no mutating call (\<^verbatim>\<open>scale_pools\<close> is not reached). When the trim
  map has an entry for every pool, the exception is the scale-down contract violation of such
  a pool; a trim map that lacks the entry of an earlier pool raises \<^verbatim>\<open>KeyError\<close> there.
\<close>

theorem scale_down_contract_violation:
  assumes "\<exists>p\<in>set (agent_pools cs). \<exists>t. map_of trim_map (name p) = Some t \<and> actual_capacity p - t \<le> 0"
  shows "\<exists>evs e. scale_down cs trim_map dry_run = (cs, evs, Some e)
           \<and> filter mutating evs = []
           \<and> ((\<forall>p\<in>set (agent_pools cs). name p \<in> dom (map_of trim_map)) \<longrightarrow>
                (\<exists>p\<in>set (agent_pools cs). \<exists>t. e = InvalidScaleDown (name p)
                    \<and> map_of trim_map (name p) = Some t \<and> actual_capacity p - t \<le> 0))"
proof -
  from scale_down_loop_raises [OF assms, of "[]"] obtain s evs e where
    r: "scale_down_loop trim_map (agent_pools cs) [] = (s, evs, Some e)"
    and v: "(\<forall>p\<in>set (agent_pools cs). name p \<in> dom (map_of trim_map)) \<longrightarrow>
                (\<exists>p\<in>set (agent_pools cs). \<exists>t. e = InvalidScaleDown (name p)
                    \<and> map_of trim_map (name p) = Some t \<and> actual_capacity p - t \<le> 0)"
    by blast
  from r have "scale_down cs trim_map dry_run = (cs, evs, Some e)"
    by (simp add: scale_down_def)
  moreover from r have "filter mutating evs = []" by (rule scale_down_loop_quiet)
  ultimately show ?thesis using v by blast
qed

text \<open>The theorem on the example: pool \<open>b\<close>, of 4 agents, trimmed by 4.\<close>

theorem scale_down_contract_violation_witness:
  "(\<exists>p\<in>set (agent_pools example_service). \<exists>t. map_of [(''a'', 1), (''b'', 4)] (name p) = Some t \<and> actual_capacity p - t \<le> 0)
   \<and> map (\<lambda>p. map_of [(''a'', 1), (''b'', 4)] (name p)) (agent_pools example_service) = [Some 1, Some 4]
   \<and> (\<exists>evs. scale_down example_service [(''a'', 1), (''b'', 4)] False
          = (example_service, evs, Some (InvalidScaleDown ''b'')) \<and> filter mutating evs = [])"
  using scale_down_contract_violation [of example_service "[(''a'', 1), (''b'', 4)]" False]
  by (simp add: example_service_def example_pools_def)

subsection \<open>Dry run\<close>





subsection \<open>The fixed-topology branch\<close>



lemma filter_mutating_loop_events:
  "filter mutating
     (concat (map (\<lambda>p. if min (max_size p) (cand p) = actual_capacity p
                        then [Info (AlreadyAt (name p) (actual_capacity p))]
                        else if \<not> False
                             then (if cand p > actual_capacity p then [Reclaim (name p) (cand p)] else [])
                             else [Info (DryRunWould (name p) (cand p) (actual_capacity p))]) pools))
   = concat (map (\<lambda>p. if min (max_size p) (cand p) \<noteq> actual_capacity p \<and> cand p > actual_capacity p
                       then [Reclaim (name p) (cand p)] else []) pools)"
  by (induction pools) simp_all





subsection \<open>The templated branch\<close>

text \<open>
  The keys \<^verbatim>\<open>deploy_pools\<close> writes are the pool names followed by \<^verbatim>\<open>Count\<close> and, on a
  scale-up, by \<^verbatim>\<open>Offset\<close>; the two kinds never coincide, and every other entry of the
  parameters is left as it was.
\<close>

lemma count_not_offset: "n @ ''Count'' \<noteq> m @ ''Offset''"
proof
  assume "n @ ''Count'' = m @ ''Offset''"
  then have "rev (n @ ''Count'') = rev (m @ ''Offset'')" by (rule arg_cong)
  then show False by simp
qed

lemma distinct_names_Cons:
  "distinct (map name (pool # pools)) \<Longrightarrow> \<forall>q\<in>set pools. name q \<noteq> name pool"
proof
  fix q assume d: "distinct (map name (pool # pools))" and q: "q \<in> set pools"
  from d have "name pool \<notin> name ` set pools" by simp
  with q show "name q \<noteq> name pool" by (metis imageI)
qed

lemma write_parameters_total:
  "\<forall>p\<in>set pools. map_of s (name p) = Some (t p) \<Longrightarrow>
   \<exists>ps'. write_parameters up s pools ps = (ps', None)"
  by (induction pools arbitrary: ps) (auto simp: Let_def)

lemma write_parameters_frame:
  assumes "write_parameters up s pools ps = (ps', err)"
      and "\<forall>p\<in>set pools. k \<noteq> name p @ ''Count''"
      and "up \<longrightarrow> (\<forall>p\<in>set pools. k \<noteq> name p @ ''Offset'')"
  shows "map_of ps' k = map_of ps k"
  using assms
proof (induction pools arbitrary: ps)
  case Nil
  then show ?case by simp
next
  case (Cons pool pools)
  show ?case
  proof (cases "map_of s (name pool)")
    case None
    with Cons.prems show ?thesis by simp
  next
    case (Some n)
    let ?ps1 = "if up \<and> actual_capacity pool < n
                then AList.update (name pool @ ''Offset'') (Value (actual_capacity pool)) ps else ps"
    let ?ps2 = "AList.update (name pool @ ''Count'') (Value n) ?ps1"
    from Cons.prems Some have r: "write_parameters up s pools ?ps2 = (ps', err)"
      by (simp add: Let_def)
    from Cons.prems have "map_of ps' k = map_of ?ps2 k"
      by (intro Cons.IH [OF r]) simp_all
    also from Cons.prems have "map_of ?ps2 k = map_of ps k"
      by (auto simp: update_conv')
    finally show ?thesis .
  qed
qed

lemma write_parameters_count:
  assumes "distinct (map name pools)"
      and "\<forall>p\<in>set pools. map_of s (name p) = Some (t p)"
      and "write_parameters up s pools ps = (ps', err)"
      and "p \<in> set pools"
  shows "map_of ps' (name p @ ''Count'') = Some (Value (t p))"
  using assms
proof (induction pools arbitrary: ps)
  case Nil
  then show ?case by simp
next
  case (Cons pool pools)
  let ?ps1 = "if up \<and> actual_capacity pool < t pool
              then AList.update (name pool @ ''Offset'') (Value (actual_capacity pool)) ps else ps"
  let ?ps2 = "AList.update (name pool @ ''Count'') (Value (t pool)) ?ps1"
  from Cons.prems have r: "write_parameters up s pools ?ps2 = (ps', err)"
    by (simp add: Let_def)
  from Cons.prems have tot: "\<forall>q\<in>set pools. map_of s (name q) = Some (t q)" by simp
  show ?case
  proof (cases "p \<in> set pools")
    case True
    from Cons.prems have "distinct (map name pools)" by simp
    from Cons.IH [OF this tot r True] show ?thesis .
  next
    case False
    with Cons.prems have eq: "p = pool" by simp
    from Cons.prems(1) have nin: "\<forall>q\<in>set pools. name q \<noteq> name pool"
    by (rule distinct_names_Cons)
    have "map_of ps' (name pool @ ''Count'') = map_of ?ps2 (name pool @ ''Count'')"
    proof (rule write_parameters_frame [OF r])
      from nin show "\<forall>q\<in>set pools. name pool @ ''Count'' \<noteq> name q @ ''Count''" by auto
      show "up \<longrightarrow> (\<forall>q\<in>set pools. name pool @ ''Count'' \<noteq> name q @ ''Offset'')"
        by (simp add: count_not_offset)
    qed
    with eq show ?thesis by (simp add: update_conv')
  qed
qed

lemma write_parameters_offset:
  assumes "distinct (map name pools)"
      and "\<forall>p\<in>set pools. map_of s (name p) = Some (t p)"
      and "write_parameters up s pools ps = (ps', err)"
      and "p \<in> set pools"
  shows "map_of ps' (name p @ ''Offset'') =
           (if up \<and> actual_capacity p < t p then Some (Value (actual_capacity p))
            else map_of ps (name p @ ''Offset''))"
  using assms
proof (induction pools arbitrary: ps)
  case Nil
  then show ?case by simp
next
  case (Cons pool pools)
  let ?ps1 = "if up \<and> actual_capacity pool < t pool
              then AList.update (name pool @ ''Offset'') (Value (actual_capacity pool)) ps else ps"
  let ?ps2 = "AList.update (name pool @ ''Count'') (Value (t pool)) ?ps1"
  from Cons.prems have r: "write_parameters up s pools ?ps2 = (ps', err)"
    by (simp add: Let_def)
  from Cons.prems have tot: "\<forall>q\<in>set pools. map_of s (name q) = Some (t q)" by simp
  from Cons.prems(1) have nin: "\<forall>q\<in>set pools. name q \<noteq> name pool"
    by (rule distinct_names_Cons)
  have ne: "name p @ ''Offset'' \<noteq> name pool @ ''Count''"
    using count_not_offset [of "name pool" "name p"] by simp
  show ?case
  proof (cases "p \<in> set pools")
    case True
    with nin have np: "name p \<noteq> name pool" by simp
    from Cons.prems have "distinct (map name pools)" by simp
    from Cons.IH [OF this tot r True]
    have "map_of ps' (name p @ ''Offset'') =
           (if up \<and> actual_capacity p < t p then Some (Value (actual_capacity p))
            else map_of ?ps2 (name p @ ''Offset''))" .
    moreover from np ne have "map_of ?ps2 (name p @ ''Offset'') = map_of ps (name p @ ''Offset'')"
      by (simp add: update_conv')
    ultimately show ?thesis by simp
  next
    case False
    with Cons.prems have eq: "p = pool" by simp
    have "map_of ps' (name pool @ ''Offset'') = map_of ?ps2 (name pool @ ''Offset'')"
    proof (rule write_parameters_frame [OF r])
      show "\<forall>q\<in>set pools. name pool @ ''Offset'' \<noteq> name q @ ''Count''"
        using count_not_offset by metis
      from nin show "up \<longrightarrow> (\<forall>q\<in>set pools. name pool @ ''Offset'' \<noteq> name q @ ''Offset'')"
        by auto
    qed
    with eq ne show ?thesis by (simp add: update_conv')
  qed
qed

text \<open>A successful \<^verbatim>\<open>prepare_template_for_scale_up\<close> leaves one resource fewer.\<close>

lemma scan_resources_length:
  "scan_resources rs i idx = ((rs', k), err) \<Longrightarrow> length rs' = length rs"
proof (induction rs arbitrary: i idx rs' k err)
  case Nil
  then show ?case by simp
next
  case (Cons r rs)
  let ?idx = "if rtype r = nsg_type then int i else idx"
  obtain rs1 k1 err1 where rec: "scan_resources rs (Suc i) ?idx = ((rs1, k1), err1)"
    by (cases "scan_resources rs (Suc i) ?idx") auto
  from Cons.IH [OF rec] have "length rs1 = length rs" .
  with Cons.prems rec show ?case
    by (auto simp: Let_def split: if_splits option.splits)
qed

lemma py_pop_length: "py_pop xs i = Inr ys \<Longrightarrow> Suc (length ys) = length xs"
  by (auto simp: py_pop_def Let_def split: if_splits)

lemma prepare_template_removes_one:
  assumes "prepare_template_for_scale_up t = (t', None)"
  shows "Suc (length (resources t')) = length (resources t)"
proof -
  obtain rs k err where sc: "scan_resources (resources t) 0 (- 1) = ((rs, k), err)"
    by (cases "scan_resources (resources t) 0 (- 1)") auto
  with assms obtain rs' where "py_pop rs k = Inr rs'" and "t' = t\<lparr>resources := rs'\<rparr>"
    by (auto simp: prepare_template_for_scale_up_def split: option.splits sum.splits)
  with scan_resources_length [OF sc] py_pop_length [of rs k rs'] show ?thesis by simp
qed

text \<open>What a \<^verbatim>\<open>deploy_pools\<close> that returns normally has done, and when it does.\<close>

lemma deploy_pools_unfold:
  assumes "write_parameters up s (agent_pools cs) (arm_parameters cs) = (ps, None)"
      and "(if up then prepare_template_for_scale_up (arm_template cs)
            else (arm_template cs, None)) = (t, e)"
  shows "deploy_pools cs s up =
           (cs\<lparr>arm_parameters := ps, arm_template := t\<rparr>,
            (case e of None \<Rightarrow> [ArmCreateOrUpdate (resource_group_name cs) t ps] | Some x \<Rightarrow> []),
            e)"
  using assms by (cases up; cases e) (simp_all add: deploy_pools_def Let_def)

lemma deploy_pools_result:
  assumes "deploy_pools cs s up = (cs', evs, None)"
  shows "write_parameters up s (agent_pools cs) (arm_parameters cs) = (arm_parameters cs', None)
       \<and> (if up then prepare_template_for_scale_up (arm_template cs) = (arm_template cs', None)
           else arm_template cs' = arm_template cs)
       \<and> evs = [ArmCreateOrUpdate (resource_group_name cs) (arm_template cs') (arm_parameters cs')]
       \<and> agent_pools cs' = agent_pools cs \<and> resource_group_name cs' = resource_group_name cs"
proof -
  obtain ps e1 where w: "write_parameters up s (agent_pools cs) (arm_parameters cs) = (ps, e1)"
    by (cases "write_parameters up s (agent_pools cs) (arm_parameters cs)") auto
  with assms have e1: "e1 = None"
    by (cases e1) (simp_all add: deploy_pools_def)
  obtain t e2 where p: "(if up then prepare_template_for_scale_up (arm_template cs)
                         else (arm_template cs, None)) = (t, e2)"
    by (cases "if up then prepare_template_for_scale_up (arm_template cs) else (arm_template cs, None)") auto
  from deploy_pools_unfold [OF w [unfolded e1] p] assms
  have e2: "e2 = None" and cs': "cs' = cs\<lparr>arm_parameters := ps, arm_template := t\<rparr>"
    and evs: "evs = [ArmCreateOrUpdate (resource_group_name cs) t ps]"
    by auto
  from p e2 have "if up then prepare_template_for_scale_up (arm_template cs) = (t, None)
                  else t = arm_template cs"
    by (cases up) simp_all
  with w e1 cs' evs show ?thesis by simp
qed

lemma deploy_pools_ok:
  assumes "\<forall>p\<in>set (agent_pools cs). map_of s (name p) = Some (t p)"
      and "up \<longrightarrow> snd (prepare_template_for_scale_up (arm_template cs)) = None"
  shows "\<exists>cs' evs. deploy_pools cs s up = (cs', evs, None)"
proof -
  from write_parameters_total [OF assms(1)] obtain ps where
    w: "write_parameters up s (agent_pools cs) (arm_parameters cs) = (ps, None)" by blast
  from assms(2) obtain tpl where
    p: "(if up then prepare_template_for_scale_up (arm_template cs) else (arm_template cs, None)) = (tpl, None)"
    by (cases up; cases "prepare_template_for_scale_up (arm_template cs)") auto
  from deploy_pools_unfold [OF w p] show ?thesis by simp
qed

text \<open>
  Claim C8, as stated, fails on the example: on a scale-up in which pool \<open>a\<close> grows from 3 to
  5 and pool \<open>b\<close> stays at 4, the parameters submitted carry \<^verbatim>\<open>aOffset\<close> and no
  \<^verbatim>\<open>bOffset\<close>.
\<close>

theorem templated_redeploy_counterexample:
  "snd (snd (scale_pools example_engine [(''a'', 5), (''b'', 10)] False True)) =
     ([Reclaim ''a'' 5,
       Info (AlreadyAt ''b'' 4),
       Deploy [(''a'', 5), (''b'', 4)],
       ArmCreateOrUpdate ''rg''
         \<lparr>resources =
            [\<lparr>rtype = vnet_type, dependsOn = Some [''routeTable''], body = ''vnet''\<rparr>,
             \<lparr>rtype = ''Microsoft.Compute/virtualMachines'', dependsOn = Some [], body = ''vm''\<rparr>]\<rparr>
         [(''aOffset'', Value 3), (''aCount'', Value 5), (''bCount'', Value 4)]],
      None)
   \<and> map_of [(''aOffset'', Value 3), (''aCount'', Value 5), (''bCount'', Value 4)] ''bOffset'' = None"
  by (simp add: example_engine_def example_service_def example_pools_def example_template_def
        scale_pools_def deploy_def deploy_pools_def prepare_template_for_scale_up_def py_pop_def
        nsg_type_def vnet_type_def nsg_dependency_def Let_def)

text \<open>
  Claim C8, amended. In the templated branch, for pools of distinct names, an intent with a
  candidate for each of them, at least one pool whose clamped target differs from its actual
  capacity, and (on a scale-up) a template whose preprocessing succeeds: the pass returns
  normally, and after the reclaims of the first loop its mutating calls are exactly one
  \<^verbatim>\<open>deploy\<close> with one redeploy, whose parameters carry for every pool its clamped target
  under \<^verbatim>\<open>Count\<close>; under \<^verbatim>\<open>Offset\<close> they carry the pool's actual capacity when the
  pass is a scale-up and the target exceeds it, and otherwise whatever the stored parameters
  held there before.
\<close>

theorem templated_redeploy:
  assumes "is_acs_engine cs"
      and "distinct (map name (agent_pools cs))"
      and "\<forall>p\<in>set (agent_pools cs). map_of new_pool_sizes (name p) = Some (cand p)"
      and "\<exists>p\<in>set (agent_pools cs). min (max_size p) (cand p) \<noteq> actual_capacity p"
      and "is_scale_up \<longrightarrow> snd (prepare_template_for_scale_up (arm_template cs)) = None"
  shows "\<exists>cs' sizes evs. scale_pools cs new_pool_sizes False is_scale_up = (cs', sizes, evs, None)
      \<and> (\<forall>p\<in>set (agent_pools cs). map_of sizes (name p) = Some (min (max_size p) (cand p)))
      \<and> filter mutating evs =
          concat (map (\<lambda>p. if min (max_size p) (cand p) \<noteq> actual_capacity p \<and> cand p > actual_capacity p
                            then [Reclaim (name p) (cand p)] else []) (agent_pools cs))
          @ [Deploy sizes,
             ArmCreateOrUpdate (resource_group_name cs) (arm_template cs') (arm_parameters cs')]
      \<and> (\<forall>p\<in>set (agent_pools cs).
            map_of (arm_parameters cs') (name p @ ''Count'') = Some (Value (min (max_size p) (cand p)))
            \<and> map_of (arm_parameters cs') (name p @ ''Offset'') =
                (if is_scale_up \<and> actual_capacity p < min (max_size p) (cand p)
                 then Some (Value (actual_capacity p))
                 else map_of (arm_parameters cs) (name p @ ''Offset'')))"
proof -
  let ?t = "\<lambda>p. min (max_size p) (cand p)"
  let ?loop = "concat (map (\<lambda>p. if min (max_size p) (cand p) = actual_capacity p
                              then [Info (AlreadyAt (name p) (actual_capacity p))]
                              else if \<not> False
                                   then (if cand p > actual_capacity p then [Reclaim (name p) (cand p)] else [])
                                   else [Info (DryRunWould (name p) (cand p) (actual_capacity p))])
                    (agent_pools cs))"
  let ?reclaims = "concat (map (\<lambda>p. if min (max_size p) (cand p) \<noteq> actual_capacity p \<and> cand p > actual_capacity p
                            then [Reclaim (name p) (cand p)] else []) (agent_pools cs))"
  from scale_pools_loop_valid [OF assms(2) assms(3), of False False] assms(4) obtain s where
    run: "scale_pools_loop False (agent_pools cs) new_pool_sizes False = (s, True, ?loop, None)"
    and tg: "\<forall>p\<in>set (agent_pools cs). map_of s (name p) = Some (?t p)"
    by auto
  from deploy_pools_ok [OF tg assms(5)] obtain cs' evs where
    dp: "deploy_pools cs s is_scale_up = (cs', evs, None)" by blast
  from deploy_pools_result [OF dp] have
    w: "write_parameters is_scale_up s (agent_pools cs) (arm_parameters cs) = (arm_parameters cs', None)"
    and evs: "evs = [ArmCreateOrUpdate (resource_group_name cs) (arm_template cs') (arm_parameters cs')]"
    by simp_all
  from run dp evs assms(1) have res:
    "scale_pools cs new_pool_sizes False is_scale_up =
       (cs', s, ?loop @ [Deploy s, ArmCreateOrUpdate (resource_group_name cs) (arm_template cs') (arm_parameters cs')], None)"
    by (simp add: scale_pools_def deploy_def)
  have f: "filter mutating (?loop @ [Deploy s, ArmCreateOrUpdate (resource_group_name cs) (arm_template cs') (arm_parameters cs')])
        = ?reclaims @ [Deploy s, ArmCreateOrUpdate (resource_group_name cs) (arm_template cs') (arm_parameters cs')]"
    by (simp only: filter_append filter_mutating_loop_events) simp
  have params: "\<forall>p\<in>set (agent_pools cs).
            map_of (arm_parameters cs') (name p @ ''Count'') = Some (Value (?t p))
            \<and> map_of (arm_parameters cs') (name p @ ''Offset'') =
                (if is_scale_up \<and> actual_capacity p < ?t p
                 then Some (Value (actual_capacity p))
                 else map_of (arm_parameters cs) (name p @ ''Offset''))"
  proof
    fix p assume p: "p \<in> set (agent_pools cs)"
    from write_parameters_count [OF assms(2) tg w p] write_parameters_offset [OF assms(2) tg w p]
    show "map_of (arm_parameters cs') (name p @ ''Count'') = Some (Value (?t p))
            \<and> map_of (arm_parameters cs') (name p @ ''Offset'') =
                (if is_scale_up \<and> actual_capacity p < ?t p
                 then Some (Value (actual_capacity p))
                 else map_of (arm_parameters cs) (name p @ ''Offset''))"
      by simp
  qed
  from res f tg params show ?thesis by (intro exI conjI) (simp_all only:)
qed

text \<open>The theorem on the example.\<close>

theorem templated_redeploy_witness:
  "is_acs_engine example_engine
   \<and> distinct (map name (agent_pools example_engine))
   \<and> map (\<lambda>p. map_of [(''a'', 5), (''b'', 10)] (name p)) (agent_pools example_engine) = [Some 5, Some 10]
   \<and> (\<exists>p\<in>set (agent_pools example_engine).
          min (max_size p) (if name p = ''a'' then 5 else 10) \<noteq> actual_capacity p)
   \<and> snd (prepare_template_for_scale_up (arm_template example_engine)) = None
   \<and> (\<exists>cs' sizes evs. scale_pools example_engine [(''a'', 5), (''b'', 10)] False True = (cs', sizes, evs, None)
        \<and> map_of sizes ''a'' = Some 5 \<and> map_of sizes ''b'' = Some 4
        \<and> filter mutating evs =
            [Reclaim ''a'' 5, Deploy sizes, ArmCreateOrUpdate ''rg'' (arm_template cs') (arm_parameters cs')]
        \<and> map_of (arm_parameters cs') ''aCount'' = Some (Value 5)
        \<and> map_of (arm_parameters cs') ''aOffset'' = Some (Value 3)
        \<and> map_of (arm_parameters cs') ''bCount'' = Some (Value 4)
        \<and> map_of (arm_parameters cs') ''bOffset'' = None)"
proof -
  have h: "snd (prepare_template_for_scale_up (arm_template example_engine)) = None"
    by (simp add: example_engine_def example_service_def example_template_def
          prepare_template_for_scale_up_def py_pop_def nsg_type_def vnet_type_def Let_def)
  from templated_redeploy [of example_engine "[(''a'', 5), (''b'', 10)]"
          "\<lambda>p. if name p = ''a'' then 5 else 10" True] h
  show ?thesis
    by (simp add: example_engine_def example_service_def example_pools_def)
qed

text \<open>
  Claim C10. A scale-up \<^verbatim>\<open>deploy_pools\<close> that returns normally leaves in the service object
  the template as \<^verbatim>\<open>prepare_template_for_scale_up\<close> mutated it, one resource shorter, and the
  parameters as the loop wrote them, and it submits these stored objects. They persist: a
  later \<^verbatim>\<open>deploy_pools\<close> on the same object (here a scale-down, which does not preprocess)
  submits the template of the first pass, and its parameters differ from those of the first
  pass at \<^verbatim>\<open>Count\<close> keys only, so the \<^verbatim>\<open>Offset\<close> entries of the first pass are still there.
\<close>

theorem deploy_pools_mutates_stored_state:
  assumes "deploy_pools cs sizes True = (cs1, evs1, None)"
  shows "prepare_template_for_scale_up (arm_template cs) = (arm_template cs1, None)
       \<and> Suc (length (resources (arm_template cs1))) = length (resources (arm_template cs))
       \<and> write_parameters True sizes (agent_pools cs) (arm_parameters cs) = (arm_parameters cs1, None)
       \<and> evs1 = [ArmCreateOrUpdate (resource_group_name cs) (arm_template cs1) (arm_parameters cs1)]
       \<and> (\<forall>sizes2 cs2 evs2. deploy_pools cs1 sizes2 False = (cs2, evs2, None) \<longrightarrow>
             arm_template cs2 = arm_template cs1
             \<and> evs2 = [ArmCreateOrUpdate (resource_group_name cs) (arm_template cs1) (arm_parameters cs2)]
             \<and> (\<forall>k. (\<forall>p\<in>set (agent_pools cs). k \<noteq> name p @ ''Count'') \<longrightarrow>
                    map_of (arm_parameters cs2) k = map_of (arm_parameters cs1) k))"
proof -
  from deploy_pools_result [OF assms] have
    w: "write_parameters True sizes (agent_pools cs) (arm_parameters cs) = (arm_parameters cs1, None)"
    and t: "prepare_template_for_scale_up (arm_template cs) = (arm_template cs1, None)"
    and e: "evs1 = [ArmCreateOrUpdate (resource_group_name cs) (arm_template cs1) (arm_parameters cs1)]"
    and k: "agent_pools cs1 = agent_pools cs" "resource_group_name cs1 = resource_group_name cs"
    by simp_all
  have next_pass: "arm_template cs2 = arm_template cs1
             \<and> evs2 = [ArmCreateOrUpdate (resource_group_name cs) (arm_template cs1) (arm_parameters cs2)]
             \<and> (\<forall>k. (\<forall>p\<in>set (agent_pools cs). k \<noteq> name p @ ''Count'') \<longrightarrow>
                    map_of (arm_parameters cs2) k = map_of (arm_parameters cs1) k)"
    if second: "deploy_pools cs1 sizes2 False = (cs2, evs2, None)" for sizes2 cs2 evs2
  proof -
    from deploy_pools_result [OF second] k have
      w2: "write_parameters False sizes2 (agent_pools cs) (arm_parameters cs1) = (arm_parameters cs2, None)"
      and t2: "arm_template cs2 = arm_template cs1"
      and e2: "evs2 = [ArmCreateOrUpdate (resource_group_name cs) (arm_template cs2) (arm_parameters cs2)]"
      by simp_all
    have "\<forall>k. (\<forall>p\<in>set (agent_pools cs). k \<noteq> name p @ ''Count'') \<longrightarrow>
                    map_of (arm_parameters cs2) k = map_of (arm_parameters cs1) k"
      using write_parameters_frame [OF w2] by simp
    with t2 e2 show ?thesis by simp
  qed
  from t have "Suc (length (resources (arm_template cs1))) = length (resources (arm_template cs))"
    by (rule prepare_template_removes_one)
  with w t e next_pass show ?thesis by blast
qed

text \<open>The theorem on the example: a scale-up to 5 and 4 agents, then a scale-down to 4 and 4.\<close>

theorem deploy_pools_mutates_stored_state_witness:
  "deploy_pools example_engine [(''a'', 5), (''b'', 4)] True =
     (example_after,
      [ArmCreateOrUpdate ''rg'' (arm_template example_after) (arm_parameters example_after)], None)
   \<and> length (resources (arm_template example_engine)) = 3
   \<and> length (resources (arm_template example_after)) = 2
   \<and> (\<exists>cs2. deploy_pools example_after [(''a'', 4), (''b'', 4)] False =
               (cs2, [ArmCreateOrUpdate ''rg'' (arm_template example_after) (arm_parameters cs2)], None)
            \<and> arm_template cs2 = arm_template example_after
            \<and> map_of (arm_parameters cs2) ''aOffset'' = Some (Value 3))"
proof -
  have run: "deploy_pools example_engine [(''a'', 5), (''b'', 4)] True =
     (example_after,
      [ArmCreateOrUpdate ''rg'' (arm_template example_after) (arm_parameters example_after)], None)"
    by (simp add: example_after_def example_engine_def example_service_def example_pools_def
          example_template_def deploy_pools_def prepare_template_for_scale_up_def py_pop_def
          nsg_type_def vnet_type_def nsg_dependency_def Let_def)
  obtain cs2 evs2 err2 where
    second: "deploy_pools example_after [(''a'', 4), (''b'', 4)] False = (cs2, evs2, err2)"
    by (cases "deploy_pools example_after [(''a'', 4), (''b'', 4)] False") auto
  have "snd (snd (deploy_pools example_after [(''a'', 4), (''b'', 4)] False)) = None"
    by (simp add: example_after_def example_engine_def example_service_def example_pools_def
          deploy_pools_def Let_def)
  with second have ok: "deploy_pools example_after [(''a'', 4), (''b'', 4)] False = (cs2, evs2, None)"
    by simp
  have pools: "agent_pools example_engine = example_pools"
    and rg: "resource_group_name example_engine = ''rg''"
    by (simp_all add: example_engine_def example_service_def)
  from deploy_pools_mutates_stored_state [OF run] ok
  have t2: "arm_template cs2 = arm_template example_after"
    and e2: "evs2 = [ArmCreateOrUpdate (resource_group_name example_engine)
                       (arm_template example_after) (arm_parameters cs2)]"
    and fr: "\<forall>k. (\<forall>p\<in>set (agent_pools example_engine). k \<noteq> name p @ ''Count'') \<longrightarrow>
                    map_of (arm_parameters cs2) k = map_of (arm_parameters example_after) k"
    by blast+
  from fr have "map_of (arm_parameters cs2) ''aOffset'' = map_of (arm_parameters example_after) ''aOffset''"
    by (simp add: pools example_pools_def)
  then have off: "map_of (arm_parameters cs2) ''aOffset'' = Some (Value 3)"
    by (simp add: example_after_def)
  have l3: "length (resources (arm_template example_engine)) = 3"
    by (simp add: example_engine_def example_template_def)
  have l2: "length (resources (arm_template example_after)) = 2"
    by (simp add: example_after_def)
  from run ok t2 e2 off l3 l2 rg show ?thesis by simp
qed

section \<open>Properties of the template mutation\<close>

text \<open>
  On a template whose virtual-network entries all have a \<^verbatim>\<open>dependsOn\<close> list the loop raises
  nothing and pops the first matching edge of each of them; \<^verbatim>\<open>nsg_resource_index\<close> ends as
  the index of the last network-security-group entry, which is then removed, or as \<open>-1\<close>
  when there is none, and then the last entry of a non-empty list is removed.
\<close>

lemma scan_resources_entries:
  assumes "\<forall>r\<in>set rs. rtype r = vnet_type \<longrightarrow> dependsOn r \<noteq> None"
  shows "\<exists>k. scan_resources rs i idx = ((map without_nsg_edge rs, k), None)"
  using assms
proof (induction rs arbitrary: i idx)
  case Nil
  then show ?case by simp
next
  case (Cons r rs)
  let ?idx = "if rtype r = nsg_type then int i else idx"
  from Cons.prems have "\<forall>r\<in>set rs. rtype r = vnet_type \<longrightarrow> dependsOn r \<noteq> None" by simp
  from Cons.IH [OF this, of "Suc i" ?idx] obtain k where
    rec: "scan_resources rs (Suc i) ?idx = ((map without_nsg_edge rs, k), None)" by blast
  show ?case
  proof (cases "rtype r = vnet_type")
    case True
    with Cons.prems obtain deps where "dependsOn r = Some deps" by auto
    with True rec show ?thesis by (simp add: Let_def without_nsg_edge_def)
  next
    case False
    with rec show ?thesis by (simp add: Let_def without_nsg_edge_def)
  qed
qed

lemma scan_resources_no_nsg:
  assumes "\<forall>r\<in>set rs. rtype r \<noteq> nsg_type"
  shows "snd (fst (scan_resources rs i idx)) = idx"
  using assms
proof (induction rs arbitrary: i)
  case Nil
  then show ?case by simp
next
  case (Cons r rs)
  from Cons.prems have n: "rtype r \<noteq> nsg_type" and "\<forall>r\<in>set rs. rtype r \<noteq> nsg_type" by simp_all
  from Cons.IH [OF this(2), of "Suc i"] have "snd (fst (scan_resources rs (Suc i) idx)) = idx" .
  with n show ?case
    by (cases "scan_resources rs (Suc i) idx")
       (auto simp: Let_def split: option.splits)
qed

lemma scan_resources_last_nsg:
  assumes "rtype n = nsg_type"
      and "\<forall>r\<in>set post. rtype r \<noteq> nsg_type"
      and "\<forall>r\<in>set (pre @ n # post). rtype r = vnet_type \<longrightarrow> dependsOn r \<noteq> None"
  shows "snd (fst (scan_resources (pre @ n # post) i idx)) = int (i + length pre)"
  using assms(3)
proof (induction pre arbitrary: i idx)
  case Nil
  from scan_resources_no_nsg [OF assms(2), of "Suc i" "int i"] assms(1)
  show ?case
    by (cases "scan_resources post (Suc i) (int i)")
       (auto simp: Let_def split: option.splits)
next
  case (Cons r pre)
  let ?idx = "if rtype r = nsg_type then int i else idx"
  from Cons.prems have rest: "\<forall>r\<in>set (pre @ n # post). rtype r = vnet_type \<longrightarrow> dependsOn r \<noteq> None"
    by simp
  from Cons.IH [OF rest, of "Suc i" ?idx]
  have "snd (fst (scan_resources (pre @ n # post) (Suc i) ?idx)) = int (Suc i + length pre)" .
  moreover from Cons.prems have "rtype r = vnet_type \<longrightarrow> dependsOn r \<noteq> None" by simp
  ultimately show ?case
    by (cases "scan_resources (pre @ n # post) (Suc i) ?idx")
       (auto simp: Let_def split: option.splits)
qed

lemma py_pop_middle: "py_pop (xs @ y # ys) (int (length xs)) = Inr (xs @ ys)"
  by (simp add: py_pop_def Let_def)

lemma nsg_is_no_vnet: "nsg_type \<noteq> vnet_type"
  by (simp add: nsg_type_def vnet_type_def)

lemma prepare_template_with_nsg:
  assumes "resources t = pre @ n # post"
      and "rtype n = nsg_type"
      and "\<forall>r\<in>set post. rtype r \<noteq> nsg_type"
      and "\<forall>r\<in>set (resources t). rtype r = vnet_type \<longrightarrow> dependsOn r \<noteq> None"
  shows "prepare_template_for_scale_up t =
           (t\<lparr>resources := map without_nsg_edge pre @ map without_nsg_edge post\<rparr>, None)"
proof -
  from assms(1) assms(4) have ok: "\<forall>r\<in>set (pre @ n # post). rtype r = vnet_type \<longrightarrow> dependsOn r \<noteq> None"
    by simp
  from scan_resources_entries [OF ok, of 0 "- 1"] obtain k where
    sc: "scan_resources (pre @ n # post) 0 (- 1) = ((map without_nsg_edge (pre @ n # post), k), None)"
    by blast
  from scan_resources_last_nsg [OF assms(2) assms(3) ok, of 0 "- 1"] sc
  have k: "k = int (length pre)" by simp
  have "py_pop (map without_nsg_edge pre @ without_nsg_edge n # map without_nsg_edge post)
          (int (length (map without_nsg_edge pre)))
        = Inr (map without_nsg_edge pre @ map without_nsg_edge post)"
    by (rule py_pop_middle)
  with sc k assms(1) show ?thesis
    by (simp add: prepare_template_for_scale_up_def)
qed


lemma py_pop_last: "xs \<noteq> [] \<Longrightarrow> py_pop xs (- 1) = Inr (butlast xs)"
proof -
  assume ne: "xs \<noteq> []"
  then have "nat (int (length xs) - 1) = length xs - 1" by simp
  with ne show ?thesis
    by (simp add: py_pop_def Let_def butlast_conv_take Suc_diff_1)
qed

lemma prepare_template_no_nsg:
  assumes "resources t \<noteq> []"
      and "\<forall>r\<in>set (resources t). rtype r \<noteq> nsg_type"
      and "\<forall>r\<in>set (resources t). rtype r = vnet_type \<longrightarrow> dependsOn r \<noteq> None"
  shows "prepare_template_for_scale_up t =
           (t\<lparr>resources := butlast (map without_nsg_edge (resources t))\<rparr>, None)"
proof -
  from scan_resources_entries [OF assms(3), of 0 "- 1"] obtain k where
    sc: "scan_resources (resources t) 0 (- 1) = ((map without_nsg_edge (resources t), k), None)"
    by blast
  from scan_resources_no_nsg [OF assms(2), of 0 "- 1"] sc have k: "k = - 1" by simp
  from assms(1) have "py_pop (map without_nsg_edge (resources t)) (- 1)
                        = Inr (butlast (map without_nsg_edge (resources t)))"
    by (intro py_pop_last) simp
  with sc k show ?thesis by (simp add: prepare_template_for_scale_up_def)
qed

text \<open>
  Claim C6, where it fails. The template the example service holds after its first scale-up
  has no network-security-group resource any more. On it
  \<^verbatim>\<open>prepare_template_for_scale_up\<close> raises nothing: \<^verbatim>\<open>nsg_resource_index\<close> is still
  \<open>-1\<close> at \<^verbatim>\<open>resources.pop(nsg_resource_index)\<close>, which removes the last resource, the
  virtual machine.
\<close>

theorem prepare_template_without_nsg:
  "prepare_template_for_scale_up (arm_template example_after) =
     (\<lparr>resources = [\<lparr>rtype = vnet_type, dependsOn = Some [''routeTable''], body = ''vnet''\<rparr>]\<rparr>, None)
   \<and> filter (\<lambda>r. rtype r = nsg_type) (resources (arm_template example_after)) = []"
  by (simp add: example_after_def prepare_template_for_scale_up_def py_pop_def
        nsg_type_def vnet_type_def nsg_dependency_def Let_def)

section \<open>Properties of node deletion\<close>

text \<open>After the loop of \<^verbatim>\<open>delete_node\<close> the variable \<^verbatim>\<open>pool\<close> is the last pool of the service.\<close>

lemma delete_node_loop_last:
  "delete_node_loop pools pool d =
     (if pools = [] then pool else last pools,
      fold (\<lambda>p. AList.update (name p) (actual_capacity p)) pools d)"
  by (induction pools arbitrary: pool d) simp_all

text \<open>
  Claim C4, where it fails. On the example service, whose pools are \<open>a\<close> (3 agents) and
  \<open>b\<close> (4 agents), \<^verbatim>\<open>delete_node\<close> for a node of pool \<open>a\<close> submits the snapshot
  \<open>a = 3, b = 3\<close>, for every node and provider: the loop has rebound \<^verbatim>\<open>pool\<close> to the last
  pool, and that pool's entry is the one decremented.
\<close>

theorem delete_node_decrements_last_pool:
  "\<exists>evs err. delete_node globals prov example_service
                 \<lparr>name = ''a'', actual_capacity = 3, max_size = 100\<rparr> node
             = (example_service, Deploy [(''a'', 3), (''b'', 3)] # evs, err)"
proof -
  have cs: "\<And>cs' evs err. delete_resources_for_node globals prov node example_service = (cs', evs, err)
              \<Longrightarrow> cs' = example_service"
    by (auto simp: delete_resources_for_node_def Let_def split: if_splits sum.splits)
  obtain cs' evs err where r: "delete_resources_for_node globals prov node example_service = (cs', evs, err)"
    by (cases "delete_resources_for_node globals prov node example_service") auto
  with cs [OF r] show ?thesis
    by (simp add: delete_node_def deploy_def example_service_def example_pools_def)
qed

text \<open>
  Claim C5, where it fails. The module never imports \<^verbatim>\<open>ComputeManagementClient\<close>, which line 66
  of \<^verbatim>\<open>delete_resources_for_node\<close> reads. In the module as written the teardown of every
  node, the node \<^verbatim>\<open>pool-a-12345-vm-3\<close> of the scenario among them, therefore logs its first
  line and raises \<^verbatim>\<open>NameError\<close>: the instance metadata is not read, and neither the
  compute instance nor the network interface nor the blob is deleted.
\<close>

theorem teardown_raises_name_error:
  "delete_resources_for_node module_globals prov node cs =
     (cs, [Info (DeletingNode (node_name node))], Some (NameError ''ComputeManagementClient''))
   \<and> delete_resources_for_node module_globals example_provider example_node example_service =
     (example_service, [Info (DeletingNode ''pool-a-12345-vm-3'')],
      Some (NameError ''ComputeManagementClient''))"
  by (simp add: delete_resources_for_node_def module_globals_def example_node_def Let_def)

text \<open>
  The scenario's node name has five fields between dashes, and lines 88 and 89 take the
  fourth: were the import present, the network interface deleted for it would be
  \<^verbatim>\<open>pool-a-12345-nic-vm\<close>, and no delete of \<^verbatim>\<open>pool-a-12345-nic-3\<close> would be issued.
\<close>

lemma teardown_of_scenario_node:
  "nic_name ''pool-a-12345-vm-3'' = Inr ''pool-a-12345-nic-vm''
   \<and> ResourceDelete ''rg'' ''Microsoft.Network'' ''networkInterfaces'' ''pool-a-12345-nic-3''
        \<notin> set (fst (snd (delete_resources_for_node (''ComputeManagementClient'' # module_globals)
                            example_provider example_node example_service)))"
  by (simp add: delete_resources_for_node_def module_globals_def example_node_def
        example_provider_def example_service_def nic_name_def py_index_def Let_def)

text \<open>
  The order of the calls the method is written to make, which a namespace that binds
  \<^verbatim>\<open>ComputeManagementClient\<close> would let it make: for a disk URI of at least five fields
  between slashes, a node name of at least four fields between dashes and at least one storage
  key, the read of the virtual machine (from whose disk URI the storage account, the
  container and the blob are taken), the delete of the virtual machine and its wait, the
  delete of the network interface named by the first three fields of the node name,
  \<^verbatim>\<open>nic\<close> and the fourth field, and its wait, the read of the storage keys, and the delete
  of the blob at the location taken at the start.
\<close>

lemma teardown_order:
  assumes "''ComputeManagementClient'' \<in> set globals"
      and "py_split CHR ''/'' (vhd_uri prov (node_name node)) = s0 # s1 # host # container_name # blob_name # others"
      and "py_split CHR ''.'' host = account_name # domain"
      and "py_split CHR ''-'' (node_name node) = p0 # p1 # p2 # p3 # rest"
      and "account_keys prov account_name = key # keys"
  shows "delete_resources_for_node globals prov node cs =
           (cs,
            [Info (DeletingNode (node_name node)),
             VmGet (resource_group_name cs) (node_name node),
             Info DeletingVM,
             ResourceDelete (resource_group_name cs) ''Microsoft.Compute'' ''virtualMachines'' (node_name node),
             Wait,
             Info DeletingNIC,
             ResourceDelete (resource_group_name cs) ''Microsoft.Network'' ''networkInterfaces''
               (p0 @ ''-'' @ p1 @ ''-'' @ p2 @ ''-nic-'' @ p3),
             Wait,
             Info DeletingOSDisk,
             ListKeys (resource_group_name cs) account_name,
             DeleteBlob account_name key container_name blob_name],
            None)"
proof -
  from assms(4) have nic: "nic_name (node_name node) = Inr (p0 @ ''-'' @ p1 @ ''-'' @ p2 @ ''-nic-'' @ p3)"
    by (simp add: nic_name_def py_index_def Let_def)
  from assms(1) assms(2) assms(3) assms(5) nic show ?thesis
    by (simp add: delete_resources_for_node_def Let_def py_index_def)
qed

text \<open>
  That order for the node \<^verbatim>\<open>pool-a-12345-vm-3\<close>, whose fourth field is \<^verbatim>\<open>vm\<close>.
\<close>

lemma teardown_order_example:
  "''ComputeManagementClient'' \<in> set (''ComputeManagementClient'' # module_globals)
   \<and> py_split CHR ''/'' (vhd_uri example_provider (node_name example_node))
        = [''https:'', '''', ''acct.blob.core.windows.net'', ''vhds'', ''osdisk.vhd'']
   \<and> py_split CHR ''.'' ''acct.blob.core.windows.net'' = [''acct'', ''blob'', ''core'', ''windows'', ''net'']
   \<and> py_split CHR ''-'' (node_name example_node) = [''pool'', ''a'', ''12345'', ''vm'', ''3'']
   \<and> account_keys example_provider ''acct'' = [''key1'']
   \<and> delete_resources_for_node (''ComputeManagementClient'' # module_globals) example_provider
         example_node example_service =
           (example_service,
            [Info (DeletingNode ''pool-a-12345-vm-3''),
             VmGet ''rg'' ''pool-a-12345-vm-3'',
             Info DeletingVM,
             ResourceDelete ''rg'' ''Microsoft.Compute'' ''virtualMachines'' ''pool-a-12345-vm-3'',
             Wait,
             Info DeletingNIC,
             ResourceDelete ''rg'' ''Microsoft.Network'' ''networkInterfaces'' ''pool-a-12345-nic-vm'',
             Wait,
             Info DeletingOSDisk,
             ListKeys ''rg'' ''acct'',
             DeleteBlob ''acct'' ''key1'' ''vhds'' ''osdisk.vhd''],
            None)"
proof -
  have g: "''ComputeManagementClient'' \<in> set (''ComputeManagementClient'' # module_globals)" by simp
  have u: "py_split CHR ''/'' (vhd_uri example_provider (node_name example_node))
        = [''https:'', '''', ''acct.blob.core.windows.net'', ''vhds'', ''osdisk.vhd'']"
    by (simp add: example_provider_def)
  have h: "py_split CHR ''.'' ''acct.blob.core.windows.net'' = [''acct'', ''blob'', ''core'', ''windows'', ''net'']"
    by simp
  have n: "py_split CHR ''-'' (node_name example_node) = [''pool'', ''a'', ''12345'', ''vm'', ''3'']"
    by (simp add: example_node_def)
  have k: "account_keys example_provider ''acct'' = [''key1'']"
    by (simp add: example_provider_def)
  from teardown_order [OF g u h n k, of example_service] g u h n k show ?thesis
    by (simp add: example_node_def example_service_def)
qed

end
